theory Spec2Isabelle
  imports Main "HOL-Library.Word"
begin

section \<open>The element tree of \<^verbatim>\<open>tui.cpp\<close>\<close>

text \<open>
  \<^verbatim>\<open>size_t\<close> is the unsigned 64-bit integer of the LP64 targets: \<open>+\<close> and \<open>-\<close> wrap
  around, \<open>unat\<close> reads the value.
\<close>

type_synonym size_t = "64 word"

record Dimensions =
  width :: size_t
  height :: size_t

text \<open>
  The class hierarchy below \<^verbatim>\<open>Element\<close> is closed in this program: \<^verbatim>\<open>Text\<close>,
  \<^verbatim>\<open>Heading\<close> (a \<^verbatim>\<open>Text\<close> that overrides \<^verbatim>\<open>render\<close> only) and \<^verbatim>\<open>Container\<close>.
  A \<^verbatim>\<open>unique_ptr<Element>\<close> held in a container is an owned, non-null element;
  the vector of children is a list. A \<^verbatim>\<open>std::string\<close> is a list of bytes.
\<close>

datatype Element =
    Text string
  | Heading string
  | Container "Element list"

text \<open>
  The one piece of global state is the stream \<^verbatim>\<open>cout\<close>: the bytes written so far.
  Every member function is a function of the stream and returns it.
\<close>

type_synonym ostream = string

definition put :: "string \<Rightarrow> ostream \<Rightarrow> ostream" where
  \<comment> \<open>\<^verbatim>\<open>cout << s\<close>\<close>
  "put s cout = cout @ s"

definition LF :: char where
  "LF = CHR 0x0A"

definition ESC :: char where
  \<comment> \<open>\<^verbatim>\<open>\u001b\<close>\<close>
  "ESC = CHR 0x1B"

definition endl :: "ostream \<Rightarrow> ostream" where
  \<comment> \<open>\<^verbatim>\<open>cout << endl\<close>: a line break (and a flush, which the bytes do not show)\<close>
  "endl cout = cout @ [LF]"

definition size_str :: "string \<Rightarrow> size_t" where
  \<comment> \<open>\<^verbatim>\<open>text.size()\<close>: the number of bytes, as a \<^verbatim>\<open>size_t\<close>\<close>
  "size_str text = of_nat (length text)"

subsection \<open>\<^verbatim>\<open>dimensions()\<close>\<close>

text \<open>
  \<^verbatim>\<open>Container::dimensions\<close> runs its range-for loop over the children with the two
  locals \<^verbatim>\<open>max_width\<close> and \<^verbatim>\<open>sum_height\<close>; \<open>dimensions_loop\<close> is that loop.
\<close>

fun dimensions :: "Element \<Rightarrow> ostream \<Rightarrow> Dimensions \<times> ostream"
  and dimensions_loop ::
    "Element list \<Rightarrow> size_t \<Rightarrow> size_t \<Rightarrow> ostream \<Rightarrow> (size_t \<times> size_t) \<times> ostream"
where
  "dimensions (Text text) cout = (\<lparr>width = size_str text, height = 1\<rparr>, cout)"
| "dimensions (Heading text) cout = (\<lparr>width = size_str text, height = 1\<rparr>, cout)"
| "dimensions (Container children) cout =
     (let ((max_width, sum_height), cout) = dimensions_loop children 0 0 cout
      in (\<lparr>width = max_width + 2, height = sum_height\<rparr>, cout))"
| "dimensions_loop [] max_width sum_height cout = ((max_width, sum_height), cout)"
| "dimensions_loop (child # rest) max_width sum_height cout =
     (let (dims, cout) = dimensions child cout
      in dimensions_loop rest (max max_width (width dims)) (sum_height + height dims) cout)"

definition measure_of :: "Element \<Rightarrow> Dimensions" where
  \<comment> \<open>what a caller of \<^verbatim>\<open>dimensions()\<close> is handed back\<close>
  "measure_of e = fst (dimensions e [])"

subsection \<open>\<^verbatim>\<open>render()\<close>\<close>

text \<open>
  Both counting loops of \<^verbatim>\<open>Container::render\<close> have the shape
  \<^verbatim>\<open>for (size_t i = 0; i < n; ++i) cout << s;\<close>
\<close>

function for_put :: "size_t \<Rightarrow> size_t \<Rightarrow> string \<Rightarrow> ostream \<Rightarrow> ostream" where
  "for_put i n s cout = (if i < n then for_put (i + 1) n s (put s cout) else cout)"
  by pat_completeness auto
termination
proof (relation "measure (\<lambda>(i, n, s, cout). unat n - unat i)")
  show "wf (measure (\<lambda>(i, n, s, cout). unat n - unat i))"
    by simp
next
  fix i n :: size_t and s :: string and cout :: ostream
  assume less: "i < n"
  then have "unat (i + 1) = Suc (unat i)"
    by unat_arith
  moreover from less have "unat i < unat n"
    by (simp add: word_less_nat_alt)
  ultimately show "((i + 1, n, s, put s cout), (i, n, s, cout))
      \<in> measure (\<lambda>(i, n, s, cout). unat n - unat i)"
    by simp
qed

declare for_put.simps [simp del]

definition bold_on :: string where
  \<comment> \<open>\<^verbatim>\<open>"\u001b[1m"\<close>\<close>
  "bold_on = ESC # ''[1m''"

definition reset :: string where
  \<comment> \<open>\<^verbatim>\<open>"\u001b[0m"\<close>\<close>
  "reset = ESC # ''[0m''"

definition render_line :: "Dimensions \<Rightarrow> ostream \<Rightarrow> ostream" where
  \<comment> \<open>the lambda \<^verbatim>\<open>render_line\<close>, which captures \<^verbatim>\<open>dims\<close>\<close>
  "render_line dims cout =
     endl (put ''+'' (for_put 0 (width dims - 2) ''-'' (put ''+'' cout)))"

definition padding :: "Dimensions \<Rightarrow> Dimensions \<Rightarrow> size_t" where
  \<comment> \<open>the bound of the padding loop, \<^verbatim>\<open>dims.width - 2 - child_dims.width\<close>\<close>
  "padding dims child_dims = width dims - 2 - width child_dims"

text \<open>
  \<open>render_children\<close> is the range-for loop of \<^verbatim>\<open>Container::render\<close>, with the
  captured local \<^verbatim>\<open>dims\<close> as a parameter.
\<close>

fun render :: "Element \<Rightarrow> ostream \<Rightarrow> ostream"
  and render_children :: "Dimensions \<Rightarrow> Element list \<Rightarrow> ostream \<Rightarrow> ostream"
where
  "render (Text text) cout = put text cout"
| "render (Heading text) cout = put reset (put text (put bold_on cout))"
| "render (Container children) cout =
     (let (dims, cout) = dimensions (Container children) cout;
          cout = render_line dims cout;
          cout = render_children dims children cout
      in render_line dims cout)"
| "render_children dims [] cout = cout"
| "render_children dims (child # rest) cout =
     (let (child_dims, cout) = dimensions child cout;
          cout = put ''|'' cout;
          cout = render child cout;
          cout = for_put 0 (padding dims child_dims) '' '' cout;
          cout = endl (put ''|'' cout)
      in render_children dims rest cout)"

definition rendered :: "Element \<Rightarrow> string" where
  \<comment> \<open>the bytes a call of \<^verbatim>\<open>render()\<close> writes\<close>
  "rendered e = render e []"

subsection \<open>The constructor and \<^verbatim>\<open>main\<close>\<close>

definition move_vector :: "'a list \<Rightarrow> 'a list \<times> 'a list" where
  \<comment> \<open>move construction of a \<^verbatim>\<open>std::vector\<close> from \<^verbatim>\<open>move(v)\<close>: the new vector takes the
      elements, and the moved-from vector is left empty; returns both\<close>
  "move_vector v = (v, [])"

definition Container_new :: "Element list \<Rightarrow> Element \<times> Element list" where
  \<comment> \<open>\<^verbatim>\<open>Container(vector<unique_ptr<Element>> &children) : children(move(children)) {}\<close>:
      the new object, and the caller's vector, which is passed by reference\<close>
  "Container_new children =
     (let (member, children) = move_vector children in (Container member, children))"

definition main :: "ostream \<Rightarrow> int \<times> ostream" where
  "main cout =
     (let text = Heading ''Hello world'';
          text2 = Text ''This is a long string of text'';
          children = [];
          children = children @ [text];
          children = children @ [text2];
          (container, children) = Container_new children;
          cout = render container cout
      in (0, cout))"

section \<open>Reading the output\<close>

text \<open>
  The lines of an output: the bytes before each line break, in order. \<open>split_lines\<close>
  carries the line read so far; bytes after the last line break form a last line.
\<close>

primrec split_lines :: "string \<Rightarrow> string \<Rightarrow> string list" where
  "split_lines cur [] = (if cur = [] then [] else [cur])"
| "split_lines cur (c # cs) =
     (if c = LF then cur # split_lines [] cs else split_lines (cur @ [c]) cs)"

definition lines_of :: "string \<Rightarrow> string list" where
  "lines_of out = split_lines [] out"

definition unlines :: "string list \<Rightarrow> string" where
  \<comment> \<open>every line followed by its line break\<close>
  "unlines ls = concat (map (\<lambda>l. l @ [LF]) ls)"

text \<open>
  The characters of a line that take a column: the line without the two styling
  control sequences the program writes.
\<close>

fun strip_style :: "string \<Rightarrow> string" where
  "strip_style [] = []"
| "strip_style (c # cs) =
     (if c = ESC \<and> (take 3 cs = ''[1m'' \<or> take 3 cs = ''[0m'')
      then strip_style (drop 3 cs)
      else c # strip_style cs)"

definition visible_width :: "string \<Rightarrow> nat" where
  "visible_width l = length (strip_style l)"

definition is_border :: "string \<Rightarrow> bool" where
  \<comment> \<open>starts with \<open>+\<close>, ends with \<open>+\<close>, and has only \<open>-\<close> between them\<close>
  "is_border l \<longleftrightarrow>
     2 \<le> length l \<and> hd l = CHR ''+'' \<and> last l = CHR ''+''
     \<and> list_all (\<lambda>c. c = CHR ''-'') (butlast (tl l))"

definition is_content_row :: "string \<Rightarrow> bool" where
  \<comment> \<open>starts with \<open>|\<close> and ends with another \<open>|\<close>\<close>
  "is_content_row l \<longleftrightarrow> 2 \<le> length l \<and> hd l = CHR ''|'' \<and> last l = CHR ''|''"

text \<open>
  The two kinds of line a container writes, without their line breaks: the border for
  the container's \<^verbatim>\<open>dims\<close>, and the row of one child.
\<close>

definition border_line :: "Dimensions \<Rightarrow> string" where
  "border_line dims = CHR ''+'' # replicate (unat (width dims - 2)) CHR ''-'' @ ''+''"

definition child_row :: "Dimensions \<Rightarrow> Element \<Rightarrow> string" where
  "child_row dims child =
     CHR ''|'' # rendered child
       @ replicate (unat (padding dims (measure_of child))) CHR '' '' @ ''|''"

fun leaf_content :: "Element \<Rightarrow> string option" where
  "leaf_content (Text text) = Some text"
| "leaf_content (Heading text) = Some text"
| "leaf_content (Container children) = None"

definition is_leaf :: "Element \<Rightarrow> bool" where
  "is_leaf e \<longleftrightarrow> leaf_content e \<noteq> None"

definition single_line_leaf :: "Element \<Rightarrow> bool" where
  \<comment> \<open>a leaf whose content has no line break\<close>
  "single_line_leaf e \<longleftrightarrow>
     (case leaf_content e of None \<Rightarrow> False | Some text \<Rightarrow> LF \<notin> set text)"

definition plain_leaf :: "Element \<Rightarrow> bool" where
  \<comment> \<open>a leaf whose content has no line break and no escape character, and whose
      length plus the two border columns is a \<^verbatim>\<open>size_t\<close>\<close>
  "plain_leaf e \<longleftrightarrow>
     (case leaf_content e of
        None \<Rightarrow> False
      | Some text \<Rightarrow> LF \<notin> set text \<and> ESC \<notin> set text \<and> length text + 2 < 2 ^ 64)"

section \<open>Measurement\<close>

lemma dimensions_loop_eq_aux:
  assumes "\<And>e cout. e \<in> set cs \<Longrightarrow> dimensions e cout = (measure_of e, cout)"
  shows "dimensions_loop cs mw sh cout =
     ((fold (\<lambda>c m. max m (width (measure_of c))) cs mw,
       sh + sum_list (map (\<lambda>c. height (measure_of c)) cs)), cout)"
  using assms by (induction cs arbitrary: mw sh cout) (simp_all add: add.assoc)

lemma dimensions_cout: "dimensions e cout = (measure_of e, cout)"
proof (induction e arbitrary: cout)
  case (Container children)
  have loop: "dimensions_loop children 0 0 c =
     ((fold (\<lambda>c m. max m (width (measure_of c))) children 0,
       0 + sum_list (map (\<lambda>c. height (measure_of c)) children)), c)" for c
    using Container.IH by (rule dimensions_loop_eq_aux)
  show ?case
    by (simp add: measure_of_def loop)
qed (simp_all add: measure_of_def)

lemma dimensions_loop_eq:
  "dimensions_loop cs mw sh cout =
     ((fold (\<lambda>c m. max m (width (measure_of c))) cs mw,
       sh + sum_list (map (\<lambda>c. height (measure_of c)) cs)), cout)"
  by (rule dimensions_loop_eq_aux) (rule dimensions_cout)

lemma fold_max_Max:
  fixes f :: "'a \<Rightarrow> 'b::linorder"
  shows "fold (\<lambda>c m. max m (f c)) cs m0 = Max (insert m0 (f ` set cs))"
proof -
  have "(\<lambda>c m. max m (f c)) = max \<circ> f"
    by (auto simp: fun_eq_iff max.commute)
  then have "fold (\<lambda>c m. max m (f c)) cs m0 = fold max (map f cs) m0"
    by (simp add: fold_map)
  also have "\<dots> = Max (set (m0 # map f cs))"
    by (rule Max.set_eq_fold [symmetric])
  finally show ?thesis by simp
qed

lemma measure_of_leaf [simp]:
  "measure_of (Text text) = \<lparr>width = size_str text, height = 1\<rparr>"
  "measure_of (Heading text) = \<lparr>width = size_str text, height = 1\<rparr>"
  by (simp_all add: measure_of_def)

lemma measure_of_Container:
  "measure_of (Container cs) =
     \<lparr>width = fold (\<lambda>c m. max m (width (measure_of c))) cs 0 + 2,
      height = sum_list (map (\<lambda>c. height (measure_of c)) cs)\<rparr>"
  by (simp add: measure_of_def dimensions_loop_eq)

section \<open>Rendering\<close>

lemma for_put_eq: "for_put i n s cout = cout @ concat (replicate (unat n - unat i) s)"
proof (induction i n s cout rule: for_put.induct)
  case (1 i n s cout)
  show ?case
  proof (cases "i < n")
    case True
    then have suc: "unat (i + 1) = Suc (unat i)"
      by unat_arith
    from True have "unat i < unat n"
      by (simp add: word_less_nat_alt)
    then have "unat n - unat i = Suc (unat n - Suc (unat i))"
      by simp
    then have "concat (replicate (unat n - unat i) s) = s @ concat (replicate (unat n - Suc (unat i)) s)"
      by simp
    with True "1.IH" suc show ?thesis
      by (simp add: for_put.simps [of i n] put_def)
  next
    case False
    then have "unat n - unat i = 0"
      by (simp add: word_less_nat_alt)
    with False show ?thesis
      by (simp add: for_put.simps [of i n])
  qed
qed

lemma for_put_char: "for_put 0 n [c] cout = cout @ replicate (unat n) c"
proof -
  have "concat (replicate k [c]) = replicate k c" for k
    by (induction k) simp_all
  then show ?thesis by (simp add: for_put_eq)
qed

lemma render_line_eq: "render_line dims cout = cout @ border_line dims @ [LF]"
  by (simp add: render_line_def border_line_def put_def endl_def for_put_char)

lemma render_children_eq_aux:
  assumes "\<And>e cout. e \<in> set cs \<Longrightarrow> render e cout = cout @ rendered e"
  shows "render_children dims cs cout = cout @ unlines (map (child_row dims) cs)"
  using assms
  by (induction cs arbitrary: cout)
    (simp_all add: unlines_def child_row_def dimensions_cout put_def endl_def for_put_char)

lemma render_cout: "render e cout = cout @ rendered e"
proof (induction e arbitrary: cout)
  case (Container children)
  have loop: "render_children dims children c = c @ unlines (map (child_row dims) children)"
    for dims c
    using Container.IH by (rule render_children_eq_aux)
  show ?case
    by (simp add: rendered_def dimensions_cout loop render_line_eq)
qed (simp_all add: rendered_def put_def)

lemma render_children_eq:
  "render_children dims cs cout = cout @ unlines (map (child_row dims) cs)"
  by (rule render_children_eq_aux) (rule render_cout)

lemma rendered_leaf [simp]:
  "rendered (Text text) = text"
  "rendered (Heading text) = bold_on @ text @ reset"
  by (simp_all add: rendered_def put_def)

lemma rendered_Container:
  "rendered (Container cs) =
     unlines (border_line (measure_of (Container cs))
       # map (child_row (measure_of (Container cs))) cs
       @ [border_line (measure_of (Container cs))])"
  by (simp add: rendered_def dimensions_cout render_children_eq render_line_eq unlines_def)

section \<open>Sizes as natural numbers\<close>

lemma unat_size_str: "length text < 2 ^ 64 \<Longrightarrow> unat (size_str text) = length text"
  by (simp add: size_str_def unat_of_nat)

lemma unat_Max:
  fixes S :: "size_t set"
  assumes "finite S" and "S \<noteq> {}"
  shows "unat (Max S) = Max (unat ` S)"
proof -
  have "mono (unat :: size_t \<Rightarrow> nat)"
    by (simp add: mono_def word_le_nat_alt)
  then show ?thesis
    using assms by (rule mono_Max_commute)
qed

lemma unat_sum_list:
  fixes ws :: "size_t list"
  assumes "sum_list (map unat ws) < 2 ^ 64"
  shows "unat (sum_list ws) = sum_list (map unat ws)"
  using assms
proof (induction ws)
  case Nil
  show ?case by simp
next
  case (Cons w ws)
  then have "unat (sum_list ws) = sum_list (map unat ws)"
    by simp
  moreover from Cons.prems have "unat w + sum_list (map unat ws) < 2 ^ 64"
    by simp
  ultimately show ?case
    by (simp add: unat_add_lem [THEN iffD1])
qed

lemma unat_plus_2:
  fixes w :: size_t
  assumes "unat w + 2 < 2 ^ 64"
  shows "unat (w + 2) = unat w + 2"
  using assms by (simp add: unat_add_lem [THEN iffD1])

lemma width_Container:
  "width (measure_of (Container cs)) = Max (insert 0 ((\<lambda>c. width (measure_of c)) ` set cs)) + 2"
  by (simp add: measure_of_Container fold_max_Max)

lemma height_Container:
  "height (measure_of (Container cs)) = sum_list (map (\<lambda>c. height (measure_of c)) cs)"
  by (simp add: measure_of_Container)

lemma unat_width_Container:
  assumes "\<forall>c\<in>set cs. unat (width (measure_of c)) + 2 < 2 ^ 64"
  shows "unat (width (measure_of (Container cs))) =
    Max (insert 0 ((\<lambda>c. unat (width (measure_of c))) ` set cs)) + 2"
proof -
  let ?S = "insert 0 ((\<lambda>c. width (measure_of c)) ` set cs)"
  have img: "unat ` ?S = insert 0 ((\<lambda>c. unat (width (measure_of c))) ` set cs)"
    by (simp add: image_image)
  have m: "unat (Max ?S) = Max (unat ` ?S)"
    by (rule unat_Max) simp_all
  have "Max (unat ` ?S) \<in> unat ` ?S"
    by (rule Max_in) simp_all
  with assms have "Max (unat ` ?S) + 2 < 2 ^ 64"
    unfolding img by auto
  with m have "unat (Max ?S + 2) = Max (unat ` ?S) + 2"
    by (simp add: unat_plus_2)
  then show ?thesis
    by (simp only: width_Container img)
qed

lemma child_width_le_Max:
  assumes "c \<in> set cs"
  shows "width (measure_of c) \<le> Max (insert 0 ((\<lambda>c. width (measure_of c)) ` set cs))"
  using assms by (intro Max_ge) auto

lemma width_Container_minus_2:
  "width (measure_of (Container cs)) - 2 = Max (insert 0 ((\<lambda>c. width (measure_of c)) ` set cs))"
  by (simp add: width_Container)

lemma unat_padding:
  "unat (padding dims child_dims) =
     (if width child_dims \<le> width dims - 2
      then unat (width dims - 2) - unat (width child_dims)
      else 2 ^ 64 - (unat (width child_dims) - unat (width dims - 2)))"
  unfolding padding_def by (simp add: unat_sub_if' word_le_nat_alt)

section \<open>The lines a container writes\<close>

lemma split_lines_line:
  "LF \<notin> set l \<Longrightarrow> split_lines cur (l @ LF # rest) = (cur @ l) # split_lines [] rest"
  by (induction l arbitrary: cur) auto

lemma lines_of_unlines:
  "\<forall>l\<in>set ls. LF \<notin> set l \<Longrightarrow> lines_of (unlines ls) = ls"
proof (induction ls)
  case Nil
  show ?case by (simp add: lines_of_def unlines_def)
next
  case (Cons l ls)
  then have "split_lines [] (unlines ls) = ls"
    by (simp add: lines_of_def)
  moreover have "unlines (l # ls) = l @ LF # unlines ls"
    by (simp add: unlines_def)
  moreover from Cons.prems have "LF \<notin> set l"
    by simp
  ultimately show ?case
    by (simp add: lines_of_def split_lines_line)
qed

lemma LF_notin_border_line: "LF \<notin> set (border_line dims)"
  by (auto simp: border_line_def LF_def)

lemma is_border_border_line: "is_border (border_line dims)"
  by (simp add: is_border_def border_line_def list_all_iff)

lemma is_content_row_child_row: "is_content_row (child_row dims child)"
  by (simp add: is_content_row_def child_row_def)

lemma LF_notin_child_row:
  assumes "single_line_leaf child"
  shows "LF \<notin> set (child_row dims child)"
  using assms
  by (cases child)
    (auto simp: single_line_leaf_def child_row_def bold_on_def reset_def LF_def ESC_def)

lemma lines_of_rendered_Container:
  assumes "list_all single_line_leaf cs"
  shows "lines_of (rendered (Container cs)) =
     border_line (measure_of (Container cs))
       # map (child_row (measure_of (Container cs))) cs
       @ [border_line (measure_of (Container cs))]"
  unfolding rendered_Container
  using assms
  by (intro lines_of_unlines) (auto simp: LF_notin_border_line LF_notin_child_row list_all_iff)

section \<open>Visible width\<close>

lemma child_width_le:
  assumes "c \<in> set cs"
  shows "width (measure_of c) \<le> width (measure_of (Container cs)) - 2"
  using assms by (simp only: width_Container_minus_2 child_width_le_Max)

lemma unat_width_minus_2:
  assumes "\<forall>c\<in>set cs. unat (width (measure_of c)) + 2 < 2 ^ 64"
  shows "unat (width (measure_of (Container cs)) - 2) + 2 = unat (width (measure_of (Container cs)))"
proof -
  let ?S = "insert 0 ((\<lambda>c. width (measure_of c)) ` set cs)"
  have "unat (Max ?S) = Max (unat ` ?S)"
    by (rule unat_Max) simp_all
  also have "\<dots> = Max (insert 0 ((\<lambda>c. unat (width (measure_of c))) ` set cs))"
    by (simp add: image_image)
  finally show ?thesis
    using unat_width_Container [OF assms] by (simp add: width_Container_minus_2)
qed

lemma strip_style_plain:
  "ESC \<notin> set t \<Longrightarrow> strip_style (t @ r) = t @ strip_style r"
  by (induction t) auto

lemma strip_style_plain_only: "ESC \<notin> set t \<Longrightarrow> strip_style t = t"
  using strip_style_plain [of t "[]"] by simp

lemma strip_style_bold_on: "strip_style (bold_on @ r) = strip_style r"
  by (simp add: bold_on_def)

lemma strip_style_reset: "strip_style (reset @ r) = strip_style r"
  by (simp add: reset_def)

lemma visible_width_border_line:
  "visible_width (border_line dims) = unat (width dims - 2) + 2"
proof -
  have "ESC \<notin> set (border_line dims)"
    by (auto simp: border_line_def ESC_def)
  then show ?thesis
    by (simp add: visible_width_def strip_style_plain_only) (simp add: border_line_def)
qed

lemma strip_style_rendered_leaf:
  assumes "leaf_content child = Some text" and "ESC \<notin> set text" and "ESC \<notin> set r"
  shows "strip_style (rendered child @ r) = text @ r"
proof (cases child)
  case (Text t)
  with assms show ?thesis
    by (simp add: strip_style_plain strip_style_plain_only)
next
  case (Heading t)
  have "strip_style (bold_on @ t @ reset @ r) = strip_style (t @ reset @ r)"
    by (rule strip_style_bold_on)
  also have "\<dots> = t @ strip_style (reset @ r)"
    using assms Heading by (simp add: strip_style_plain)
  also have "\<dots> = t @ r"
    using assms(3) by (simp add: strip_style_reset strip_style_plain_only)
  finally show ?thesis
    using assms Heading by simp
next
  case (Container cs)
  with assms show ?thesis by simp
qed

lemma strip_style_child_row:
  assumes "leaf_content child = Some text" and "ESC \<notin> set text"
  shows "strip_style (child_row dims child) =
    CHR ''|'' # text @ replicate (unat (padding dims (measure_of child))) CHR '' '' @ ''|''"
proof -
  let ?tail = "replicate (unat (padding dims (measure_of child))) CHR '' '' @ ''|''"
  have bar: "CHR ''|'' \<noteq> ESC"
    by (simp add: ESC_def)
  have "ESC \<notin> set ?tail"
    by (auto simp: ESC_def)
  with assms have "strip_style (rendered child @ ?tail) = text @ ?tail"
    by (rule strip_style_rendered_leaf)
  with bar show ?thesis
    by (simp add: child_row_def)
qed

lemma plain_leaf_single_line: "plain_leaf c \<Longrightarrow> single_line_leaf c"
  by (auto simp: plain_leaf_def single_line_leaf_def split: option.splits)

lemma plain_leaf_measure:
  assumes "plain_leaf c"
  obtains s where "leaf_content c = Some s" and "ESC \<notin> set s"
    and "measure_of c = \<lparr>width = size_str s, height = 1\<rparr>"
    and "unat (width (measure_of c)) = length s" and "length s + 2 < 2 ^ 64"
proof -
  from assms obtain s where t: "leaf_content c = Some s" "ESC \<notin> set s"
      "length s + 2 < 2 ^ 64"
    by (auto simp: plain_leaf_def split: option.splits)
  then have m: "measure_of c = \<lparr>width = size_str s, height = 1\<rparr>"
    by (cases c) simp_all
  from t(3) have "length s < 2 ^ 64"
    by simp
  then have "unat (size_str s) = length s"
    by (rule unat_size_str)
  with t m that show thesis
    by simp
qed

lemma height_plain_Container:
  assumes "list_all plain_leaf cs"
  shows "height (measure_of (Container cs)) = of_nat (length cs)"
proof -
  have "sum_list (map (\<lambda>c. height (measure_of c)) cs) = of_nat (length cs)"
    using assms
  proof (induction cs)
    case Nil
    show ?case by simp
  next
    case (Cons c cs)
    from Cons.prems have "plain_leaf c"
      by simp
    then have "height (measure_of c) = 1"
      by (rule plain_leaf_measure) simp
    with Cons show ?case
      by simp
  qed
  then show ?thesis
    by (simp add: height_Container)
qed

lemma visible_width_plain_row:
  assumes "list_all plain_leaf cs" and "c \<in> set cs"
  shows "visible_width (child_row (measure_of (Container cs)) c) =
    unat (width (measure_of (Container cs)))"
proof -
  let ?dims = "measure_of (Container cs)"
  have fits: "\<forall>c\<in>set cs. unat (width (measure_of c)) + 2 < 2 ^ 64"
  proof
    fix c' assume "c' \<in> set cs"
    with assms(1) have "plain_leaf c'"
      by (simp add: list_all_iff)
    then show "unat (width (measure_of c')) + 2 < 2 ^ 64"
      by (rule plain_leaf_measure) simp
  qed
  from assms have "plain_leaf c"
    by (simp add: list_all_iff)
  then obtain s where t: "leaf_content c = Some s" "ESC \<notin> set s"
      "unat (width (measure_of c)) = length s"
    by (rule plain_leaf_measure)
  from assms(2) have "width (measure_of c) \<le> width ?dims - 2"
    by (rule child_width_le)
  then have "unat (padding ?dims (measure_of c)) = unat (width ?dims - 2) - length s"
      and "length s \<le> unat (width ?dims - 2)"
    using t(3) by (simp_all add: unat_padding word_le_nat_alt)
  then have "visible_width (child_row ?dims c) = unat (width ?dims - 2) + 2"
    by (simp add: visible_width_def strip_style_child_row [OF t(1,2)])
  with unat_width_minus_2 [OF fits] show ?thesis
    by simp
qed

section \<open>Sample outputs\<close>

lemma replicate_small:
  "replicate 1 x = [x]" "replicate 2 x = [x, x]" "replicate 3 x = [x, x, x]"
  "replicate 4 x = [x, x, x, x]"
  by (simp_all add: numeral_eq_Suc)

lemma demo_leaves_plain: "list_all plain_leaf [Heading ''Hi'', Text ''abc'']"
  by (simp add: plain_leaf_def LF_def ESC_def)

lemma demo_lines:
  "lines_of (rendered (Container [Heading ''Hi'', Text ''abc''])) =
     [''+---+'', ''|'' @ bold_on @ ''Hi'' @ reset @ '' |'', ''|abc|'', ''+---+'']"
proof -
  have m: "measure_of (Container [Heading ''Hi'', Text ''abc'']) = \<lparr>width = 5, height = 2\<rparr>"
    by (simp add: measure_of_Container size_str_def)
  have "list_all single_line_leaf [Heading ''Hi'', Text ''abc'']"
    by (simp add: single_line_leaf_def LF_def)
  then have "lines_of (rendered (Container [Heading ''Hi'', Text ''abc''])) =
     border_line (measure_of (Container [Heading ''Hi'', Text ''abc'']))
       # map (child_row (measure_of (Container [Heading ''Hi'', Text ''abc''])))
           [Heading ''Hi'', Text ''abc'']
       @ [border_line (measure_of (Container [Heading ''Hi'', Text ''abc'']))]"
    by (rule lines_of_rendered_Container)
  then show ?thesis
    unfolding m
    by (simp add: size_str_def border_line_def child_row_def padding_def replicate_small)
qed

lemma lines_nested:
  "lines_of (rendered (Container [Container []])) = [''+--+'', ''|++'', ''++'', ''|'', ''+--+'']"
  by (simp add: rendered_Container measure_of_Container border_line_def child_row_def
      padding_def unlines_def replicate_small lines_of_def LF_def)

lemma lines_broken:
  "lines_of (rendered (Container [Text [CHR ''a'', LF, CHR ''b'']])) =
     [''+---+'', ''|a'', ''b|'', ''+---+'']"
  by (simp add: rendered_Container measure_of_Container size_str_def border_line_def
      child_row_def padding_def unlines_def replicate_small lines_of_def LF_def)

lemma lines_styled:
  "lines_of (rendered (Container [Text bold_on])) = [''+----+'', ''|'' @ bold_on @ ''|'', ''+----+'']"
  by (simp add: rendered_Container measure_of_Container size_str_def border_line_def
      child_row_def padding_def unlines_def replicate_small lines_of_def LF_def bold_on_def ESC_def)

section \<open>The claims\<close>

text \<open>
  C1: a container measures the maximum of its children's widths (0 when it has none)
  plus 2, and the sum of their heights, in \<^verbatim>\<open>size_t\<close> arithmetic; with no children that
  is \<open>{2, 0}\<close>; a nested container enters the outer maximum with its own width, its
  \<open>+ 2\<close> included. Where no sum leaves \<^verbatim>\<open>size_t\<close>, the same holds of the values as
  natural numbers.
\<close>

theorem Container_dimensions:
  "dimensions (Container cs) cout =
     (\<lparr>width = Max (insert 0 ((\<lambda>c. width (measure_of c)) ` set cs)) + 2,
       height = sum_list (map (\<lambda>c. height (measure_of c)) cs)\<rparr>, cout)
   \<and> measure_of (Container []) = \<lparr>width = 2, height = 0\<rparr>
   \<and> width (measure_of (Container (pre @ Container ds # post))) =
       max (Max (insert 0 ((\<lambda>c. width (measure_of c)) ` set ds)) + 2)
           (Max (insert 0 ((\<lambda>c. width (measure_of c)) ` set (pre @ post)))) + 2
   \<and> ((\<forall>c\<in>set cs. unat (width (measure_of c)) + 2 < 2 ^ 64)
        \<and> sum_list (map (\<lambda>c. unat (height (measure_of c))) cs) < 2 ^ 64
      \<longrightarrow> unat (width (measure_of (Container cs))) =
            Max (insert 0 ((\<lambda>c. unat (width (measure_of c))) ` set cs)) + 2
        \<and> unat (height (measure_of (Container cs))) =
            sum_list (map (\<lambda>c. unat (height (measure_of c))) cs))"
proof (intro conjI impI)
  show "dimensions (Container cs) cout =
     (\<lparr>width = Max (insert 0 ((\<lambda>c. width (measure_of c)) ` set cs)) + 2,
       height = sum_list (map (\<lambda>c. height (measure_of c)) cs)\<rparr>, cout)"
    by (simp add: dimensions_cout measure_of_Container fold_max_Max)
  show "measure_of (Container []) = \<lparr>width = 2, height = 0\<rparr>"
    by (simp add: measure_of_Container)
  have "insert 0 ((\<lambda>c. width (measure_of c)) ` set (pre @ Container ds # post)) =
      insert (width (measure_of (Container ds)))
        (insert 0 ((\<lambda>c. width (measure_of c)) ` set (pre @ post)))"
    by auto
  then show "width (measure_of (Container (pre @ Container ds # post))) =
       max (Max (insert 0 ((\<lambda>c. width (measure_of c)) ` set ds)) + 2)
           (Max (insert 0 ((\<lambda>c. width (measure_of c)) ` set (pre @ post)))) + 2"
    by (simp only: width_Container [of "pre @ Container ds # post"])
      (simp add: width_Container [of ds])
next
  assume fits: "(\<forall>c\<in>set cs. unat (width (measure_of c)) + 2 < 2 ^ 64)
        \<and> sum_list (map (\<lambda>c. unat (height (measure_of c))) cs) < 2 ^ 64"
  then show "unat (width (measure_of (Container cs))) =
            Max (insert 0 ((\<lambda>c. unat (width (measure_of c))) ` set cs)) + 2"
    by (simp add: unat_width_Container)
  from fits have "sum_list (map unat (map (\<lambda>c. height (measure_of c)) cs)) < 2 ^ 64"
    by (simp add: comp_def)
  then have "unat (sum_list (map (\<lambda>c. height (measure_of c)) cs)) =
      sum_list (map unat (map (\<lambda>c. height (measure_of c)) cs))"
    by (rule unat_sum_list)
  then show "unat (height (measure_of (Container cs))) =
            sum_list (map (\<lambda>c. unat (height (measure_of c))) cs)"
    by (simp add: height_Container comp_def)
qed

theorem Container_dimensions_witness:
  "dimensions (Container [Text ''abc'', Container [Text ''abcd'', Heading ''a'']]) [] =
     (\<lparr>width = 8, height = 3\<rparr>, [])
   \<and> measure_of (Container []) = \<lparr>width = 2, height = 0\<rparr>
   \<and> width (measure_of (Container [Container [Text ''abcd'', Heading ''a'']])) = 8
   \<and> unat (width (measure_of (Container [Text ''abc'', Container [Text ''abcd'', Heading ''a'']]))) = 8
   \<and> unat (height (measure_of (Container [Text ''abc'', Container [Text ''abcd'', Heading ''a'']]))) = 3"
  using Container_dimensions [of "[Text ''abc'', Container [Text ''abcd'', Heading ''a'']]" "[]" "[]"
      "[Text ''abcd'', Heading ''a'']" "[]"]
  by (simp add: measure_of_Container size_str_def)

text \<open>
  C2, as stated, fails. A container in a container writes its own lines inside the
  row of the outer one: \<open>Container [Container []]\<close> measures \<open>{4, 0}\<close> and renders as
  five lines, of which \<open>|++\<close> has three characters. A content with a line break adds
  a line that the height does not count, and a content that holds a styling sequence
  has fewer visible characters than its length.
\<close>

theorem container_lines_counterexample:
  "lines_of (rendered (Container [Container []])) = [''+--+'', ''|++'', ''++'', ''|'', ''+--+'']
   \<and> measure_of (Container [Container []]) = \<lparr>width = 4, height = 0\<rparr>
   \<and> length (lines_of (rendered (Container [Container []])))
       \<noteq> unat (height (measure_of (Container [Container []]))) + 2
   \<and> visible_width ''|++'' \<noteq> unat (width (measure_of (Container [Container []])))
   \<and> length (lines_of (rendered (Container [Text [CHR ''a'', LF, CHR ''b'']])))
       \<noteq> unat (height (measure_of (Container [Text [CHR ''a'', LF, CHR ''b'']]))) + 2
   \<and> map visible_width (lines_of (rendered (Container [Text bold_on]))) = [6, 2, 6]
   \<and> unat (width (measure_of (Container [Text bold_on]))) = 6"
proof -
  have nested: "measure_of (Container [Container []]) = \<lparr>width = 4, height = 0\<rparr>"
    by (simp add: measure_of_Container)
  have "visible_width ''|++'' = 3"
    by (simp add: visible_width_def ESC_def)
  with nested have narrow: "visible_width ''|++'' \<noteq> unat (width (measure_of (Container [Container []])))"
    by simp
  have broken: "length (lines_of (rendered (Container [Text [CHR ''a'', LF, CHR ''b'']])))
       \<noteq> unat (height (measure_of (Container [Text [CHR ''a'', LF, CHR ''b'']]))) + 2"
    by (simp add: lines_broken measure_of_Container)
  have styled: "map visible_width (lines_of (rendered (Container [Text bold_on]))) = [6, 2, 6]"
    unfolding lines_styled by (simp add: visible_width_def bold_on_def ESC_def)
  have "unat (width (measure_of (Container [Text bold_on]))) = 6"
    by (simp add: measure_of_Container size_str_def bold_on_def)
  with nested narrow broken styled show ?thesis
    by (simp add: lines_nested)
qed

text \<open>
  C2, amended: for a container whose children are all leaves, with contents free of
  line breaks and escape characters (and sizes within \<^verbatim>\<open>size_t\<close>), the output is
  \<open>height + 2\<close> lines, each followed by its line break, and every line has \<open>width\<close>
  characters when the styling sequences are not counted.
\<close>

theorem plain_container_lines:
  assumes "list_all plain_leaf cs" and "length cs < 2 ^ 64"
  shows "let ls = lines_of (rendered (Container cs)); dims = measure_of (Container cs) in
      render (Container cs) cout = cout @ unlines ls
    \<and> length ls = unat (height dims) + 2
    \<and> (\<forall>l\<in>set ls. visible_width l = unat (width dims))"
proof -
  let ?dims = "measure_of (Container cs)"
  from assms(1) have single: "list_all single_line_leaf cs"
    by (simp add: list_all_iff plain_leaf_single_line)
  have ls: "lines_of (rendered (Container cs)) =
      border_line ?dims # map (child_row ?dims) cs @ [border_line ?dims]"
    using single by (rule lines_of_rendered_Container)
  have "unlines (lines_of (rendered (Container cs))) = rendered (Container cs)"
    unfolding ls by (simp add: rendered_Container)
  then have out: "render (Container cs) cout = cout @ unlines (lines_of (rendered (Container cs)))"
    by (simp add: render_cout)
  have "unat (height ?dims) = length cs"
    using assms(2) by (simp add: height_plain_Container [OF assms(1)] unat_of_nat)
  then have n: "length (lines_of (rendered (Container cs))) = unat (height ?dims) + 2"
    by (simp add: ls)
  have fits: "\<forall>c\<in>set cs. unat (width (measure_of c)) + 2 < 2 ^ 64"
  proof
    fix c' assume "c' \<in> set cs"
    with assms(1) have "plain_leaf c'"
      by (simp add: list_all_iff)
    then show "unat (width (measure_of c')) + 2 < 2 ^ 64"
      by (rule plain_leaf_measure) simp
  qed
  have border: "visible_width (border_line ?dims) = unat (width ?dims)"
    by (simp only: visible_width_border_line unat_width_minus_2 [OF fits])
  have rows: "visible_width (child_row ?dims c) = unat (width ?dims)" if "c \<in> set cs" for c
    using assms(1) that by (rule visible_width_plain_row)
  have w: "\<forall>l\<in>set (lines_of (rendered (Container cs))). visible_width l = unat (width ?dims)"
    unfolding ls using border rows by auto
  from out n w show ?thesis
    unfolding Let_def by (intro conjI)
qed

theorem plain_container_lines_witness:
  "lines_of (rendered (Container [Heading ''Hi'', Text ''abc''])) =
     [''+---+'', ''|'' @ bold_on @ ''Hi'' @ reset @ '' |'', ''|abc|'', ''+---+'']
   \<and> render (Container [Heading ''Hi'', Text ''abc'']) ''x'' =
       ''x'' @ unlines [''+---+'', ''|'' @ bold_on @ ''Hi'' @ reset @ '' |'', ''|abc|'', ''+---+'']
   \<and> unat (height (measure_of (Container [Heading ''Hi'', Text ''abc'']))) + 2 = 4
   \<and> unat (width (measure_of (Container [Heading ''Hi'', Text ''abc'']))) = 5
   \<and> map visible_width (lines_of (rendered (Container [Heading ''Hi'', Text ''abc'']))) = [5, 5, 5, 5]"
  using plain_container_lines [OF demo_leaves_plain, of "''x''"]
  by (simp add: demo_lines Let_def measure_of_Container size_str_def)

text \<open>
  C3, as stated, fails: a leaf whose content holds a line break is written across two
  lines, \<open>|a\<close> and \<open>b|\<close>, neither of which starts and ends with \<open>|\<close>.
\<close>

theorem content_row_counterexample:
  "list_all is_leaf [Text [CHR ''a'', LF, CHR ''b'']]
   \<and> lines_of (rendered (Container [Text [CHR ''a'', LF, CHR ''b'']])) =
       [''+---+'', ''|a'', ''b|'', ''+---+'']
   \<and> \<not> is_content_row ''|a'' \<and> \<not> is_border ''|a''
   \<and> \<not> is_content_row ''b|'' \<and> \<not> is_border ''b|''
   \<and> \<not> list_all is_content_row
         (butlast (tl (lines_of (rendered (Container [Text [CHR ''a'', LF, CHR ''b'']])))))"
  by (simp add: lines_broken is_leaf_def is_content_row_def is_border_def)

text \<open>
  C3, amended: for a container whose children are all leaves with contents free of
  line breaks, the output is one line per child between two border lines; the first
  and the last line start with \<open>+\<close>, end with \<open>+\<close> and have only \<open>-\<close> between, and
  every other line starts with \<open>|\<close> and ends with \<open>|\<close>.
\<close>

theorem leaf_container_rows:
  assumes "list_all single_line_leaf cs"
  shows "let ls = lines_of (rendered (Container cs)) in
      render (Container cs) cout = cout @ unlines ls
    \<and> length ls = length cs + 2
    \<and> is_border (hd ls) \<and> is_border (last ls)
    \<and> list_all is_content_row (butlast (tl ls))
    \<and> (\<forall>l\<in>set ls. is_border l \<or> is_content_row l)"
proof -
  let ?dims = "measure_of (Container cs)"
  have ls: "lines_of (rendered (Container cs)) =
      border_line ?dims # map (child_row ?dims) cs @ [border_line ?dims]"
    using assms by (rule lines_of_rendered_Container)
  have "unlines (lines_of (rendered (Container cs))) = rendered (Container cs)"
    unfolding ls by (simp add: rendered_Container)
  then have out: "render (Container cs) cout = cout @ unlines (lines_of (rendered (Container cs)))"
    by (simp add: render_cout)
  have n: "length (lines_of (rendered (Container cs))) = length cs + 2"
    by (simp add: ls)
  have first: "is_border (hd (lines_of (rendered (Container cs))))"
    by (simp add: ls is_border_border_line)
  have final: "is_border (last (lines_of (rendered (Container cs))))"
    by (simp add: ls is_border_border_line)
  have "butlast (tl (lines_of (rendered (Container cs)))) = map (child_row ?dims) cs"
    by (simp add: ls butlast_append)
  then have rows: "list_all is_content_row (butlast (tl (lines_of (rendered (Container cs)))))"
    by (simp add: list_all_iff is_content_row_child_row)
  have every: "\<forall>l\<in>set (lines_of (rendered (Container cs))). is_border l \<or> is_content_row l"
    unfolding ls by (auto simp: is_border_border_line is_content_row_child_row)
  from out n first final rows every show ?thesis
    unfolding Let_def by (intro conjI)
qed

theorem leaf_container_rows_witness:
  "lines_of (rendered (Container [Heading ''Hi'', Text ''abc''])) =
     [''+---+'', ''|'' @ bold_on @ ''Hi'' @ reset @ '' |'', ''|abc|'', ''+---+'']
   \<and> render (Container [Heading ''Hi'', Text ''abc'']) ''x'' =
       ''x'' @ unlines [''+---+'', ''|'' @ bold_on @ ''Hi'' @ reset @ '' |'', ''|abc|'', ''+---+'']
   \<and> is_border ''+---+''
   \<and> list_all is_content_row [''|'' @ bold_on @ ''Hi'' @ reset @ '' |'', ''|abc|'']"
  using leaf_container_rows [of "[Heading ''Hi'', Text ''abc'']" "''x''"]
  by (simp add: demo_lines Let_def single_line_leaf_def LF_def)

text \<open>
  C4, as stated, fails: the loop body of \<^verbatim>\<open>Container::render\<close> has no guard. Run with a
  \<^verbatim>\<open>dims\<close> of width 4 on a child of width 5, it neither clamps the padding to zero nor
  stops: it writes \<open>2^64 - 3\<close> spaces.
\<close>

theorem padding_unguarded_counterexample:
  "width \<lparr>width = 4, height = 1\<rparr> - 2 < width (measure_of (Text ''hello''))
   \<and> unat (padding \<lparr>width = 4, height = 1\<rparr> (measure_of (Text ''hello''))) = 18446744073709551613
   \<and> render_children \<lparr>width = 4, height = 1\<rparr> [Text ''hello''] [] =
       ''|hello'' @ replicate 18446744073709551613 CHR '' '' @ ''|'' @ [LF]"
  by (simp add: render_children_eq unlines_def child_row_def padding_def size_str_def)

text \<open>
  C4, amended: a child wider than \<^verbatim>\<open>dims.width - 2\<close> makes the padding count wrap to
  \<open>2^64 - (child_dims.width - (dims.width - 2))\<close>, which is not zero, and the row is
  written with that many spaces; nothing is reported. (Inside \<^verbatim>\<open>render\<close> the case does
  not arise: C9.)
\<close>

theorem padding_wraps:
  assumes "width dims - 2 < width (measure_of child)"
  shows "unat (padding dims (measure_of child)) =
      2 ^ 64 - (unat (width (measure_of child)) - unat (width dims - 2))
    \<and> padding dims (measure_of child) \<noteq> 0
    \<and> render_children dims [child] cout =
        cout @ ''|'' @ rendered child
          @ replicate (2 ^ 64 - (unat (width (measure_of child)) - unat (width dims - 2))) CHR '' ''
          @ ''|'' @ [LF]"
proof -
  from assms have nle: "\<not> width (measure_of child) \<le> width dims - 2"
    by simp
  then have pad: "unat (padding dims (measure_of child)) =
      2 ^ 64 - (unat (width (measure_of child)) - unat (width dims - 2))"
    by (simp add: unat_padding)
  have "unat (width (measure_of child)) < 2 ^ 64"
    using unsigned_less [of "width (measure_of child)"] by simp
  with pad have "unat (padding dims (measure_of child)) \<noteq> 0"
    by simp
  then have "padding dims (measure_of child) \<noteq> 0"
    by (metis unat_0)
  with pad show ?thesis
    by (simp add: render_children_eq unlines_def child_row_def)
qed

theorem padding_wraps_witness:
  "unat (padding \<lparr>width = 4, height = 1\<rparr> (measure_of (Heading ''hello''))) = 2 ^ 64 - 3
    \<and> padding \<lparr>width = 4, height = 1\<rparr> (measure_of (Heading ''hello'')) \<noteq> 0
    \<and> render_children \<lparr>width = 4, height = 1\<rparr> [Heading ''hello''] ''x'' =
        ''x|'' @ bold_on @ ''hello'' @ reset @ replicate (2 ^ 64 - 3) CHR '' '' @ ''|'' @ [LF]"
  using padding_wraps [of "\<lparr>width = 4, height = 1\<rparr>" "Heading ''hello''" "''x''"]
  by (simp add: size_str_def)

text \<open>
  C5, as stated, fails: the text of the demo tree has 29 characters, not 30, so the
  container does not measure \<open>{32, 2}\<close>.
\<close>

theorem demo_tree_counterexample:
  "measure_of (Container [Heading ''Hello world'', Text ''This is a long string of text''])
     \<noteq> \<lparr>width = 32, height = 2\<rparr>
   \<and> length ''This is a long string of text'' = 29"
  by (simp add: measure_of_Container size_str_def)

text \<open>
  C5, amended: the demo container measures \<open>{31, 2}\<close> and renders as four lines, each
  with its line break: a border of \<open>+\<close>, 29 \<open>-\<close> and \<open>+\<close>; \<open>|\<close>, the bold
  \<open>Hello world\<close>, 18 spaces and \<open>|\<close>; \<open>|This is a long string of text|\<close> with no
  padding; the border again. This is what \<^verbatim>\<open>main\<close> writes.
\<close>

theorem demo_tree:
  "measure_of (Container [Heading ''Hello world'', Text ''This is a long string of text''])
     = \<lparr>width = 31, height = 2\<rparr>
   \<and> lines_of (rendered (Container [Heading ''Hello world'', Text ''This is a long string of text''])) =
       [CHR ''+'' # replicate 29 CHR ''-'' @ ''+'',
        ''|'' @ [ESC] @ ''[1mHello world'' @ [ESC] @ ''[0m'' @ replicate 18 CHR '' '' @ ''|'',
        ''|This is a long string of text|'',
        CHR ''+'' # replicate 29 CHR ''-'' @ ''+'']
   \<and> rendered (Container [Heading ''Hello world'', Text ''This is a long string of text'']) =
       unlines (lines_of (rendered (Container [Heading ''Hello world'', Text ''This is a long string of text''])))
   \<and> main cout = (0, cout @ rendered (Container [Heading ''Hello world'', Text ''This is a long string of text'']))"
proof -
  let ?c = "Container [Heading ''Hello world'', Text ''This is a long string of text'']"
  have m: "measure_of ?c = \<lparr>width = 31, height = 2\<rparr>"
    by (simp add: measure_of_Container size_str_def)
  have leaves: "list_all single_line_leaf [Heading ''Hello world'', Text ''This is a long string of text'']"
    by (simp add: single_line_leaf_def LF_def)
  have l: "lines_of (rendered ?c) =
       [CHR ''+'' # replicate 29 CHR ''-'' @ ''+'',
        ''|'' @ [ESC] @ ''[1mHello world'' @ [ESC] @ ''[0m'' @ replicate 18 CHR '' '' @ ''|'',
        ''|This is a long string of text|'',
        CHR ''+'' # replicate 29 CHR ''-'' @ ''+'']"
    unfolding lines_of_rendered_Container [OF leaves] m
    by (simp add: border_line_def child_row_def padding_def size_str_def bold_on_def reset_def)
  have u: "rendered ?c = unlines (lines_of (rendered ?c))"
    unfolding lines_of_rendered_Container [OF leaves] by (simp add: rendered_Container)
  have "main cout = (0, cout @ rendered ?c)"
    by (simp add: main_def Container_new_def move_vector_def render_cout)
  with m l u show ?thesis
    by (intro conjI)
qed

text \<open>
  C6: a \<^verbatim>\<open>Text\<close> or a \<^verbatim>\<open>Heading\<close> whose content has length \<open>L\<close> measures width \<open>L\<close>
  and height 1, whatever has been written to the stream. The content is a
  \<^verbatim>\<open>std::string\<close>, so its length is a \<^verbatim>\<open>size_t\<close>.
\<close>

theorem leaf_dimensions:
  assumes "e = Text text \<or> e = Heading text" and "length text < 2 ^ 64"
  shows "fst (dimensions e cout) = \<lparr>width = of_nat (length text), height = 1\<rparr>
    \<and> unat (width (fst (dimensions e cout))) = length text
    \<and> unat (height (fst (dimensions e cout))) = 1"
  using assms by (auto simp: unat_size_str [unfolded size_str_def] size_str_def)

theorem leaf_dimensions_witness:
  "fst (dimensions (Heading ''Hello world'') []) = \<lparr>width = 11, height = 1\<rparr>
    \<and> unat (width (fst (dimensions (Heading ''Hello world'') []))) = 11
    \<and> unat (height (fst (dimensions (Heading ''Hello world'') []))) = 1"
  using leaf_dimensions [of "Heading ''Hello world''" "''Hello world''" "[]"] by simp

text \<open>
  C7: rendering a \<^verbatim>\<open>Text\<close> appends exactly its content to the stream, and rendering a
  \<^verbatim>\<open>Heading\<close> appends the bold sequence, the content and the reset sequence; nothing
  follows, in particular no line break (the last byte of a heading is the \<open>m\<close> of the
  reset sequence). The styling adds nothing to the measured width: a heading measures
  what the text of the same content measures.
\<close>

theorem leaf_render:
  "render (Text text) cout = cout @ text
   \<and> render (Heading text) cout =
       cout @ [ESC, CHR ''['', CHR ''1'', CHR ''m''] @ text @ [ESC, CHR ''['', CHR ''0'', CHR ''m'']
   \<and> last (render (Heading text) cout) = CHR ''m''
   \<and> measure_of (Heading text) = measure_of (Text text)
   \<and> width (measure_of (Heading text)) = of_nat (length text)"
  by (simp add: put_def bold_on_def reset_def size_str_def)

text \<open>
  C8: \<^verbatim>\<open>dimensions()\<close> leaves the stream as it found it, a second call right after the
  first returns the same \<^verbatim>\<open>Dimensions\<close>, and so does a call made after anything else
  has been written.
\<close>

theorem dimensions_pure_idempotent:
  "(case dimensions e cout of (d1, cout1) \<Rightarrow>
      case dimensions e cout1 of (d2, cout2) \<Rightarrow>
        cout1 = cout \<and> cout2 = cout \<and> d2 = d1)
   \<and> fst (dimensions e cout') = fst (dimensions e cout)"
  by (simp add: dimensions_cout)

text \<open>
  C9: every child of a container is at most as wide as the container's width minus 2
  (the \<^verbatim>\<open>size_t\<close> value \<^verbatim>\<open>dims.width - 2\<close> that \<^verbatim>\<open>render\<close> computes), so the subtraction of
  the child's width in the padding count does not wrap. Where no child's width plus 2
  leaves \<^verbatim>\<open>size_t\<close>, \<^verbatim>\<open>dims.width - 2\<close> does not wrap either, and the padding count
  is the integer \<open>dims.width - 2 - child_dims.width\<close>, which is not negative.
\<close>

theorem child_width_bound:
  assumes "c \<in> set cs"
  shows "width (measure_of c) \<le> width (measure_of (Container cs)) - 2
    \<and> unat (padding (measure_of (Container cs)) (measure_of c)) =
        unat (width (measure_of (Container cs)) - 2) - unat (width (measure_of c))
    \<and> unat (width (measure_of c)) \<le> unat (width (measure_of (Container cs)) - 2)
    \<and> ((\<forall>c'\<in>set cs. unat (width (measure_of c')) + 2 < 2 ^ 64) \<longrightarrow>
          unat (width (measure_of c)) + 2 \<le> unat (width (measure_of (Container cs)))
        \<and> int (unat (padding (measure_of (Container cs)) (measure_of c))) =
            int (unat (width (measure_of (Container cs)))) - 2 - int (unat (width (measure_of c))))"
proof -
  let ?dims = "measure_of (Container cs)"
  have le: "width (measure_of c) \<le> width ?dims - 2"
    using assms by (simp only: width_Container_minus_2 child_width_le_Max)
  then have pad: "unat (padding ?dims (measure_of c)) =
      unat (width ?dims - 2) - unat (width (measure_of c))"
    by (simp add: unat_padding)
  from le have nat_le: "unat (width (measure_of c)) \<le> unat (width ?dims - 2)"
    by (simp add: word_le_nat_alt)
  have fits: "unat (width (measure_of c)) + 2 \<le> unat (width ?dims)
        \<and> int (unat (padding ?dims (measure_of c))) =
            int (unat (width ?dims)) - 2 - int (unat (width (measure_of c)))"
    if "\<forall>c'\<in>set cs. unat (width (measure_of c')) + 2 < 2 ^ 64"
  proof -
    let ?M = "Max (insert 0 ((\<lambda>c. unat (width (measure_of c))) ` set cs))"
    from that have w: "unat (width ?dims) = ?M + 2"
      by (rule unat_width_Container)
    have "unat (width ?dims - 2) = unat (Max (insert 0 ((\<lambda>c. width (measure_of c)) ` set cs)))"
      by (simp only: width_Container_minus_2)
    also have "\<dots> = Max (unat ` insert 0 ((\<lambda>c. width (measure_of c)) ` set cs))"
      by (rule unat_Max) simp_all
    also have "\<dots> = ?M"
      by (simp add: image_image)
    finally have "unat (width ?dims - 2) = ?M" .
    with w pad nat_le show ?thesis
      by simp
  qed
  from le pad nat_le fits show ?thesis
    by blast
qed

theorem child_width_bound_witness:
  "width (measure_of (Heading ''Hello world''))
      \<le> width (measure_of (Container [Heading ''Hello world'', Text ''This is a long string of text''])) - 2
   \<and> unat (padding (measure_of (Container [Heading ''Hello world'', Text ''This is a long string of text'']))
              (measure_of (Heading ''Hello world''))) = 18
   \<and> unat (width (measure_of (Heading ''Hello world''))) + 2
       \<le> unat (width (measure_of (Container [Heading ''Hello world'', Text ''This is a long string of text''])))"
  using child_width_bound [of "Heading ''Hello world''"
      "[Heading ''Hello world'', Text ''This is a long string of text'']"]
  by (simp add: measure_of_Container size_str_def padding_def)

text \<open>
  C10: the constructor moves the caller's vector into the new container: the container
  holds the children the vector held, in their order, and the caller's vector is left
  empty.
\<close>

theorem Container_new_moves:
  "Container_new children = (Container children, [])"
  by (simp add: Container_new_def move_vector_def)

end
